theory Spec2Isabelle
  imports Main
begin

section \<open>Python values and exceptions\<close>

text \<open>
  The program handles decoded JSON: the result of \<^verbatim>\<open>response.json()\<close>. A JSON object is
  a Python dict, here an association list read with \<open>map_of\<close>; a JSON array is a Python
  list. Numbers are the integers (JSON fractions are not represented).
\<close>

datatype json =
    JNull
  | JBool bool
  | JNum int
  | JStr string
  | JArr "json list"
  | JObj "(string \<times> json) list"

datatype py_error =
    RequestException
  | AttributeError
  | TypeError
  | KeyError
  | ValueError
  | OverflowError

definition and_then :: "py_error + 'a \<Rightarrow> ('a \<Rightarrow> py_error + 'b) \<Rightarrow> py_error + 'b" where
  "and_then m f = (case m of Inl e \<Rightarrow> Inl e | Inr x \<Rightarrow> f x)"

text \<open>\<^verbatim>\<open>x.get(key, default)\<close>: only a dict has the method.\<close>

fun dict_get :: "json \<Rightarrow> string \<Rightarrow> json \<Rightarrow> py_error + json" where
  "dict_get (JObj kvs) k d = Inr (case map_of kvs k of None \<Rightarrow> d | Some v \<Rightarrow> v)"
| "dict_get _ k d = Inl AttributeError"

text \<open>Python truth value, as \<^verbatim>\<open>not x\<close> and \<^verbatim>\<open>if x:\<close> read it.\<close>

fun truthy :: "json \<Rightarrow> bool" where
  "truthy JNull = False"
| "truthy (JBool b) = b"
| "truthy (JNum n) = (n \<noteq> 0)"
| "truthy (JStr s) = (s \<noteq> [])"
| "truthy (JArr xs) = (xs \<noteq> [])"
| "truthy (JObj kvs) = (kvs \<noteq> [])"


definition sentinel :: json where
  "sentinel = JStr ''N/A''"

section \<open>Dates: \<^verbatim>\<open>datetime.strptime\<close>, \<^verbatim>\<open>timedelta(days=1)\<close>, \<^verbatim>\<open>isoformat\<close>\<close>

text \<open>
  A \<^verbatim>\<open>datetime\<close> parsed with \<^verbatim>\<open>'%Y-%m-%d'\<close> has time 00:00:00, and adding whole days
  keeps it, so the value is its calendar date. The library admits the years 1 to 9999.
\<close>

record datetime =
  year :: nat
  month :: nat
  day :: nat

definition is_leap :: "nat \<Rightarrow> bool" where
  "is_leap y = (y mod 4 = 0 \<and> (y mod 100 \<noteq> 0 \<or> y mod 400 = 0))"

definition days_in_month :: "nat \<Rightarrow> nat \<Rightarrow> nat" where
  "days_in_month y m =
     (if m = 2 then (if is_leap y then 29 else 28)
      else if m = 4 \<or> m = 6 \<or> m = 9 \<or> m = 11 then 30
      else 31)"

definition MAXYEAR :: nat where
  "MAXYEAR = 9999"

definition valid_date :: "datetime \<Rightarrow> bool" where
  "valid_date d =
     (1 \<le> year d \<and> year d \<le> MAXYEAR \<and> 1 \<le> month d \<and> month d \<le> 12
      \<and> 1 \<le> day d \<and> day d \<le> days_in_month (year d) (month d))"

definition digit_val :: "char \<Rightarrow> nat option" where
  "digit_val c =
     map_of [(CHR ''0'', 0), (CHR ''1'', 1), (CHR ''2'', 2), (CHR ''3'', 3), (CHR ''4'', 4),
             (CHR ''5'', 5), (CHR ''6'', 6), (CHR ''7'', 7), (CHR ''8'', 8), (CHR ''9'', 9)] c"

text \<open>\<^verbatim>\<open>%Y\<close> is the pattern \<^verbatim>\<open>\d\d\d\d\<close>.\<close>

fun parse_year :: "string \<Rightarrow> (nat \<times> string) option" where
  "parse_year (a # b # c # d # rest) =
     (case (digit_val a, digit_val b, digit_val c, digit_val d) of
        (Some p, Some q, Some r, Some s) \<Rightarrow> Some (1000 * p + 100 * q + 10 * r + s, rest)
      | _ \<Rightarrow> None)"
| "parse_year _ = None"

text \<open>\<^verbatim>\<open>%m\<close> is \<^verbatim>\<open>1[0-2]|0[1-9]|[1-9]\<close>, the alternatives tried in this order.\<close>

definition month_two :: "char \<Rightarrow> char \<Rightarrow> nat option" where
  "month_two a b =
     (case digit_val b of
        None \<Rightarrow> None
      | Some q \<Rightarrow>
          if a = CHR ''1'' \<and> q \<le> 2 then Some (10 + q)
          else if a = CHR ''0'' \<and> 1 \<le> q then Some q
          else None)"

definition nonzero_digit :: "char \<Rightarrow> nat option" where
  "nonzero_digit a = (case digit_val a of Some p \<Rightarrow> (if 1 \<le> p then Some p else None) | None \<Rightarrow> None)"

fun parse_month :: "string \<Rightarrow> (nat \<times> string) option" where
  "parse_month (a # b # rest) =
     (case month_two a b of
        Some m \<Rightarrow> Some (m, rest)
      | None \<Rightarrow> (case nonzero_digit a of Some m \<Rightarrow> Some (m, b # rest) | None \<Rightarrow> None))"
| "parse_month [a] = (case nonzero_digit a of Some m \<Rightarrow> Some (m, []) | None \<Rightarrow> None)"
| "parse_month [] = None"

text \<open>\<^verbatim>\<open>%d\<close> is \<^verbatim>\<open>3[0-1]|[1-2]\d|0[1-9]|[1-9]| [1-9]\<close>.\<close>

definition day_two :: "char \<Rightarrow> char \<Rightarrow> nat option" where
  "day_two a b =
     (case digit_val b of
        None \<Rightarrow> None
      | Some q \<Rightarrow>
          if a = CHR ''3'' \<and> q \<le> 1 then Some (30 + q)
          else if a = CHR ''1'' then Some (10 + q)
          else if a = CHR ''2'' then Some (20 + q)
          else if a = CHR ''0'' \<and> 1 \<le> q then Some q
          else None)"

fun parse_day :: "string \<Rightarrow> (nat \<times> string) option" where
  "parse_day (a # b # rest) =
     (case day_two a b of
        Some n \<Rightarrow> Some (n, rest)
      | None \<Rightarrow>
          (case nonzero_digit a of
             Some n \<Rightarrow> Some (n, b # rest)
           | None \<Rightarrow>
               (if a = CHR '' '' then
                  (case nonzero_digit b of Some n \<Rightarrow> Some (n, rest) | None \<Rightarrow> None)
                else None)))"
| "parse_day [a] = (case nonzero_digit a of Some n \<Rightarrow> Some (n, []) | None \<Rightarrow> None)"
| "parse_day [] = None"

text \<open>
  \<^verbatim>\<open>datetime.strptime(s, '%Y-%m-%d')\<close>: the whole string must match, and the fields must
  name a date of the calendar; otherwise ValueError.
\<close>

definition strptime :: "string \<Rightarrow> py_error + datetime" where
  "strptime s =
     (case parse_year s of
        Some (y, c1 # s1) \<Rightarrow>
          (if c1 \<noteq> CHR ''-'' then Inl ValueError
           else case parse_month s1 of
             Some (m, c2 # s2) \<Rightarrow>
               (if c2 \<noteq> CHR ''-'' then Inl ValueError
                else case parse_day s2 of
                  Some (d, []) \<Rightarrow>
                    (let dt = \<lparr>year = y, month = m, day = d\<rparr>
                     in if valid_date dt then Inr dt else Inl ValueError)
                | _ \<Rightarrow> Inl ValueError)
           | _ \<Rightarrow> Inl ValueError)
      | _ \<Rightarrow> Inl ValueError)"

text \<open>\<^verbatim>\<open>dt + timedelta(days=1)\<close>; past 9999-12-31 the library raises OverflowError.\<close>

definition add_one_day :: "datetime \<Rightarrow> py_error + datetime" where
  "add_one_day d =
     (if day d < days_in_month (year d) (month d) then Inr (d\<lparr>day := day d + 1\<rparr>)
      else if month d < 12 then Inr (d\<lparr>month := month d + 1, day := 1\<rparr>)
      else if year d < MAXYEAR then Inr \<lparr>year = year d + 1, month = 1, day = 1\<rparr>
      else Inl OverflowError)"

text \<open>The proleptic Gregorian ordinal of a date (\<^verbatim>\<open>toordinal\<close>): 0001-01-01 is day 1.\<close>

definition days_before_year :: "nat \<Rightarrow> nat" where
  "days_before_year y = (y - 1) * 365 + (y - 1) div 4 - (y - 1) div 100 + (y - 1) div 400"

definition days_before_month :: "nat \<Rightarrow> nat \<Rightarrow> nat" where
  "days_before_month y m =
     [0, 0, 31, 59, 90, 120, 151, 181, 212, 243, 273, 304, 334] ! m
     + (if 2 < m \<and> is_leap y then 1 else 0)"

definition toordinal :: "datetime \<Rightarrow> nat" where
  "toordinal d = days_before_year (year d) + days_before_month (year d) (month d) + day d"

definition digit_char :: "nat \<Rightarrow> char" where
  "digit_char n = ''0123456789'' ! (n mod 10)"

definition pad2 :: "nat \<Rightarrow> string" where
  "pad2 n = [digit_char (n div 10), digit_char n]"

definition pad4 :: "nat \<Rightarrow> string" where
  "pad4 n = [digit_char (n div 1000), digit_char (n div 100), digit_char (n div 10), digit_char n]"

text \<open>\<^verbatim>\<open>dt.isoformat()\<close> at midnight: \<^verbatim>\<open>YYYY-MM-DDT00:00:00\<close>.\<close>

definition isoformat :: "datetime \<Rightarrow> string" where
  "isoformat d = pad4 (year d) @ ''-'' @ pad2 (month d) @ ''-'' @ pad2 (day d) @ ''T00:00:00''"

text \<open>Lines 70, 71 and 81 of \<^verbatim>\<open>find_ids\<close>: the interval of the query body.\<close>

definition query_interval :: "string \<Rightarrow> string \<Rightarrow> py_error + string" where
  "query_interval start_date end_date =
     and_then (strptime start_date) (\<lambda>start_dt.
     and_then (and_then (strptime end_date) add_one_day) (\<lambda>end_dt.
     Inr (isoformat start_dt @ ''Z/'' @ isoformat end_dt @ ''Z'')))"

section \<open>The world: network replies, files, and what the run does\<close>

text \<open>
  \<open>network w n\<close> is the outcome of the \<open>n\<close>-th HTTP request of the run: the call raises
  a \<^verbatim>\<open>RequestException\<close> (no connection, timeout), or a response arrives with its status
  code and its body, \<open>None\<close> when the body is not JSON. Every request takes the next
  outcome. A file is the list of its lines; since each written line has at least its
  terminator, a file has size 0 exactly when it has no line.
\<close>

datatype reply = Connection_failure | Response nat "json option"

record query_body =
  interval :: string
  order :: string
  pageSize :: nat
  pageNumber :: "nat option"

datatype endpoint =
    Token_url
  | Recordings_query_url query_body
  | Conversation_recordings_url json
  | Conversation_url json

datatype message =
    Authenticated
  | Authentication_attempt_failed nat
  | Authentication_failed
  | Attempt_failed nat json
  | Failed_after_attempts nat
  | Error_retrieving json
  | Error_in_find_recordings
  | Added_recordings nat json string
  | Fetching_page nat
  | Failed_to_get_recordings json
  | Request_failed
  | Unexpected_error
  | Not_authorized nat
  | Unexpected_status nat
  | Error_conversation_details
  | Processing_conversation nat nat json
  | Pausing
  | Error_processing json
  | Processed_total nat
  | Critical_error

datatype event =
    Request endpoint
  | Sleep nat
  | Log_info message
  | Log_warning message
  | Log_error message
  | Print message

text \<open>A cell of a csv row is a value, or the quotient of a number of milliseconds by 1000.\<close>

datatype cell = Val json | Div_1000 int

datatype line = Csv_row "cell list"

record world =
  network :: "nat \<Rightarrow> reply"
  requests_made :: nat
  files :: "string \<Rightarrow> line list option"
  trace :: "event list"
  access_token :: json
  headers :: "json option"

definition emit :: "event \<Rightarrow> world \<Rightarrow> world" where
  "emit e w = w\<lparr>trace := trace w @ [e]\<rparr>"

text \<open>\<^verbatim>\<open>time.sleep\<close>, the duration in milliseconds.\<close>

definition seconds :: "nat \<Rightarrow> nat" where
  "seconds n = 1000 * n"

definition http_request :: "endpoint \<Rightarrow> world \<Rightarrow> reply \<times> world" where
  "http_request ep w =
     (network w (requests_made w),
      w\<lparr>requests_made := requests_made w + 1, trace := trace w @ [Request ep]\<rparr>)"

text \<open>
  \<^verbatim>\<open>response.raise_for_status()\<close> then \<^verbatim>\<open>response.json()\<close>: a status from 400 to 599
  raises HTTPError, a body that is not JSON raises the library's JSONDecodeError; both are
  \<^verbatim>\<open>RequestException\<close>s (requests 2.27 and later).
\<close>

definition checked_json :: "reply \<Rightarrow> py_error + json" where
  "checked_json r =
     (case r of
        Connection_failure \<Rightarrow> Inl RequestException
      | Response status body \<Rightarrow>
          if 400 \<le> status \<and> status < 600 then Inl RequestException
          else (case body of None \<Rightarrow> Inl RequestException | Some j \<Rightarrow> Inr j))"

text \<open>\<^verbatim>\<open>token_data['access_token']\<close>.\<close>

fun subscript :: "json \<Rightarrow> string \<Rightarrow> py_error + json" where
  "subscript (JObj kvs) k = (case map_of kvs k of None \<Rightarrow> Inl KeyError | Some v \<Rightarrow> Inr v)"
| "subscript _ k = Inl TypeError"

section \<open>Authenticator\<close>

definition max_retries :: nat where
  "max_retries = 3"

text \<open>
  The loop \<^verbatim>\<open>for attempt in range(max_retries)\<close> of \<^verbatim>\<open>authenticate\<close>. The result is the
  exception that leaves the loop, if any.
\<close>

fun authenticate_attempts :: "nat list \<Rightarrow> world \<Rightarrow> py_error option \<times> world" where
  "authenticate_attempts [] w = (None, w)"
| "authenticate_attempts (attempt # rest) w =
     (let (r, w1) = http_request Token_url w in
      case and_then (checked_json r) (\<lambda>token_data. subscript token_data ''access_token'') of
        Inr token \<Rightarrow>
          (None, emit (Log_info Authenticated) (w1\<lparr>access_token := token, headers := Some token\<rparr>))
      | Inl e \<Rightarrow>
          if e = RequestException then
            (let w2 = emit (Log_warning (Authentication_attempt_failed (attempt + 1))) w1 in
             if attempt < max_retries - 1
             then authenticate_attempts rest (emit (Sleep (seconds (2 ^ attempt))) w2)
             else (Some e, w2))
          else (Some e, w1))"

definition authenticate :: "world \<Rightarrow> py_error option \<times> world" where
  "authenticate w =
     (case authenticate_attempts [0..<max_retries] w of
        (None, w') \<Rightarrow> (None, w')
      | (Some e, w') \<Rightarrow> (Some e, emit (Log_error Authentication_failed) w'))"

section \<open>Detail Fetcher and Incremental Exporter\<close>

text \<open>Lines 209 to 213: the recordings of a decoded response.\<close>

definition normalize :: "json \<Rightarrow> json list" where
  "normalize response_json =
     (let recordings =
        (case response_json of
           JObj kvs \<Rightarrow> (case map_of kvs ''entities'' of None \<Rightarrow> response_json | Some v \<Rightarrow> v)
         | _ \<Rightarrow> response_json)
      in case recordings of JArr xs \<Rightarrow> xs | _ \<Rightarrow> [recordings])"

text \<open>Lines 236 and 237. Python evaluates the default (the \<^verbatim>\<open>download\<close> lookup) before the
  last \<^verbatim>\<open>get\<close> is called.\<close>

definition download_uri :: "json \<Rightarrow> py_error + json" where
  "download_uri recording =
     and_then (dict_get recording ''mediaUris'' (JObj [])) (\<lambda>uris.
     and_then (dict_get uris ''0'' (JObj [])) (\<lambda>first.
     and_then (dict_get recording ''download'' (JObj [])) (\<lambda>download.
     and_then (dict_get download ''url'' sentinel) (\<lambda>fallback.
     dict_get first ''mediaUri'' fallback))))"

text \<open>Lines 229 to 238: the row of one recording.\<close>

definition recording_row :: "json \<Rightarrow> json \<Rightarrow> py_error + cell list" where
  "recording_row conversation_id recording =
     and_then (dict_get recording ''id'' sentinel) (\<lambda>rid.
     and_then (dict_get recording ''startTime'' sentinel) (\<lambda>start.
     and_then (dict_get recording ''endTime'' sentinel) (\<lambda>end.
     and_then (dict_get recording ''mediaType'' sentinel) (\<lambda>media_type.
     and_then (dict_get recording ''media'' media_type) (\<lambda>media.
     and_then (dict_get recording ''fileState'' sentinel) (\<lambda>file_state.
     and_then (download_uri recording) (\<lambda>uri.
     Inr (map Val [conversation_id, rid, start, end, media, file_state, uri]))))))))"

definition detail_header :: line where
  "detail_header =
     Csv_row (map (Val \<circ> JStr)
       [''Conversation ID'', ''Recording ID'', ''Start Time'', ''End Time'',
        ''Media Type'', ''File State'', ''Download URL''])"

text \<open>
  Lines 228 to 238: rows are written until a recording raises; what was written stays in
  the file, which the \<^verbatim>\<open>with\<close> block closes.
\<close>

fun write_rows :: "json \<Rightarrow> json list \<Rightarrow> line list \<Rightarrow> py_error option \<times> line list" where
  "write_rows conversation_id [] content = (None, content)"
| "write_rows conversation_id (recording # rest) content =
     (case recording_row conversation_id recording of
        Inl e \<Rightarrow> (Some e, content)
      | Inr row \<Rightarrow> write_rows conversation_id rest (content @ [Csv_row row]))"

text \<open>Lines 215 to 240: the append of one normalized response to the export file.\<close>

definition append_records :: "json \<Rightarrow> json list \<Rightarrow> string \<Rightarrow> world \<Rightarrow> py_error option \<times> world" where
  "append_records conversation_id recordings output_file w =
     (let file_exists = (files w output_file \<noteq> None);
          file_is_empty = (\<not> file_exists \<or> files w output_file = Some []);
          opened = (case files w output_file of None \<Rightarrow> [] | Some content \<Rightarrow> content);
          with_header = (if file_is_empty then opened @ [detail_header] else opened)
      in case write_rows conversation_id recordings with_header of
           (Some e, content) \<Rightarrow> (Some e, w\<lparr>files := (files w)(output_file \<mapsto> content)\<rparr>)
         | (None, content) \<Rightarrow>
             (None, emit (Print (Added_recordings (length recordings) conversation_id output_file))
                      (w\<lparr>files := (files w)(output_file \<mapsto> content)\<rparr>)))"

text \<open>
  The loop \<^verbatim>\<open>for attempt in range(max_retries)\<close> of the second definition of
  \<^verbatim>\<open>find_recordings_by_conversation_id\<close> (lines 201 to 251). \<open>Inr\<close> is the value of
  \<^verbatim>\<open>recordings\<close> when the loop is left by \<^verbatim>\<open>break\<close> or by \<^verbatim>\<open>return []\<close>, \<open>Inl\<close> an
  exception on its way to the outer handler.
\<close>

fun find_recordings_attempts ::
  "nat list \<Rightarrow> json \<Rightarrow> string \<Rightarrow> world \<Rightarrow> (py_error + json list) \<times> world" where
  "find_recordings_attempts [] conversation_id output_file w = (Inr [], w)"
| "find_recordings_attempts (attempt # rest) conversation_id output_file w =
     (let (r, w1) = http_request (Conversation_recordings_url conversation_id) w in
      case checked_json r of
        Inr response_json \<Rightarrow>
          (let recordings = normalize response_json in
           case append_records conversation_id recordings output_file w1 of
             (Some e, w2) \<Rightarrow> (Inl e, w2)
           | (None, w2) \<Rightarrow> (Inr recordings, w2))
      | Inl e \<Rightarrow>
          (let w2 = emit (Log_warning (Attempt_failed (attempt + 1) conversation_id)) w1 in
           if attempt < max_retries - 1 then
             (case authenticate w2 of
                (Some e', w3) \<Rightarrow> (Inl e', w3)
              | (None, w3) \<Rightarrow>
                  find_recordings_attempts rest conversation_id output_file
                    (emit (Sleep (seconds (2 ^ attempt))) w3))
           else (Inr [], emit (Log_error (Failed_after_attempts max_retries)) w2)))"

text \<open>The second definition (lines 192 to 257): the value returned and the world after.\<close>

definition find_recordings_by_conversation_id :: "json \<Rightarrow> string \<Rightarrow> world \<Rightarrow> json list \<times> world" where
  "find_recordings_by_conversation_id conversation_id output_file w =
     (case (if \<not> truthy (access_token w) then authenticate w else (None, w)) of
        (Some e, w1) \<Rightarrow> ([], emit (Log_error (Error_retrieving conversation_id)) w1)
      | (None, w1) \<Rightarrow>
          (case find_recordings_attempts [0..<max_retries] conversation_id output_file w1 of
             (Inl e, w2) \<Rightarrow> ([], emit (Log_error (Error_retrieving conversation_id)) w2)
           | (Inr recordings, w2) \<Rightarrow> (recordings, w2)))"

subsection \<open>The first definition of the same name (lines 150 to 190)\<close>

text \<open>
  It writes through pandas: \<^verbatim>\<open>pd.DataFrame(recordings).to_csv(output_file, mode='a',
  header=not os.path.exists(output_file), index=False)\<close>. The library is a parameter:
  \<open>to_csv recordings header\<close> is the lines it appends, or the exception it raises.
  The value of \<^verbatim>\<open>recordings\<close> is whatever \<^verbatim>\<open>entities\<close> holds.
\<close>

fun first_attempts ::
  "nat list \<Rightarrow> json \<Rightarrow> world \<Rightarrow> (py_error + json option) \<times> world" where
  "first_attempts [] conversation_id w = (Inr (Some (JArr [])), w)"
| "first_attempts (attempt # rest) conversation_id w =
     (let (r, w1) = http_request (Conversation_recordings_url conversation_id) w in
      case checked_json r of
        Inr response_json \<Rightarrow>
          (case dict_get response_json ''entities'' (JArr []) of
             Inl e \<Rightarrow> (Inl e, w1)
           | Inr recordings \<Rightarrow> (Inr (Some recordings), emit (Sleep 500) w1))
      | Inl e \<Rightarrow>
          (let w2 = emit (Log_warning (Attempt_failed (attempt + 1) conversation_id)) w1 in
           if attempt < max_retries - 1 then
             (case authenticate w2 of
                (Some e', w3) \<Rightarrow> (Inl e', w3)
              | (None, w3) \<Rightarrow>
                  first_attempts rest conversation_id (emit (Sleep (seconds (2 ^ attempt))) w3))
           else (Inr None, emit (Log_error (Failed_after_attempts max_retries)) w2)))"

text \<open>In \<open>first_attempts\<close>, \<open>Inr None\<close> is the \<^verbatim>\<open>return []\<close> inside the loop.\<close>

definition find_recordings_first ::
  "(json \<Rightarrow> bool \<Rightarrow> py_error + line list) \<Rightarrow> json \<Rightarrow> string \<Rightarrow> world \<Rightarrow> json \<times> world" where
  "find_recordings_first to_csv conversation_id output_file w =
     (case (if \<not> truthy (access_token w) then authenticate w else (None, w)) of
        (Some e, w1) \<Rightarrow> (JArr [], emit (Log_error Error_in_find_recordings) w1)
      | (None, w1) \<Rightarrow>
          (case first_attempts [0..<max_retries] conversation_id w1 of
             (Inl e, w2) \<Rightarrow> (JArr [], emit (Log_error Error_in_find_recordings) w2)
           | (Inr None, w2) \<Rightarrow> (JArr [], w2)
           | (Inr (Some recordings), w2) \<Rightarrow>
               if truthy recordings then
                 (case to_csv recordings (files w2 output_file = None) of
                    Inl e \<Rightarrow> (JArr [], emit (Log_error Error_in_find_recordings) w2)
                  | Inr ls \<Rightarrow>
                      (recordings,
                       w2\<lparr>files := (files w2)(output_file \<mapsto>
                            (case files w2 output_file of None \<Rightarrow> [] | Some c \<Rightarrow> c) @ ls)\<rparr>))
               else (recordings, w2)))"

subsection \<open>The class body binds the name twice\<close>

text \<open>
  A class body runs its \<^verbatim>\<open>def\<close> statements in order, each binding its name in the class
  namespace; a later binding of a name replaces the earlier one. The two bindings of
  \<^verbatim>\<open>find_recordings_by_conversation_id\<close>, in source order, each returning a Python value
  (the second definition returns the list of recordings):
\<close>

definition find_recordings_second :: "json \<Rightarrow> string \<Rightarrow> world \<Rightarrow> json \<times> world" where
  "find_recordings_second conversation_id output_file w =
     (case find_recordings_by_conversation_id conversation_id output_file w of
        (recordings, w') \<Rightarrow> (JArr recordings, w'))"

definition class_body ::
  "(json \<Rightarrow> bool \<Rightarrow> py_error + line list)
   \<Rightarrow> (string \<times> (json \<Rightarrow> string \<Rightarrow> world \<Rightarrow> json \<times> world)) list" where
  "class_body to_csv =
     [(''find_recordings_by_conversation_id'', find_recordings_first to_csv),
      (''find_recordings_by_conversation_id'', find_recordings_second)]"

definition class_namespace ::
  "(string \<times> 'm) list \<Rightarrow> string \<Rightarrow> 'm option" where
  "class_namespace body = foldl (\<lambda>ns (name, m). ns(name \<mapsto> m)) Map.empty body"

section \<open>Conversation detail lookup (lines 269 to 286)\<close>

text \<open>The value returned, \<open>JNull\<close> for \<^verbatim>\<open>None\<close>.\<close>

definition get_conversation_details :: "json \<Rightarrow> world \<Rightarrow> json \<times> world" where
  "get_conversation_details conversation_id w =
     (let (r, w1) = http_request (Conversation_url conversation_id) w in
      case r of
        Connection_failure \<Rightarrow> (JNull, emit (Print Error_conversation_details) w1)
      | Response status body \<Rightarrow>
          if status = 200 then
            (case body of
               Some j \<Rightarrow> (j, w1)
             | None \<Rightarrow> (JNull, emit (Print Error_conversation_details) w1))
          else if status = 403 then (JNull, emit (Print (Not_authorized status)) w1)
          else (JNull, emit (Print (Unexpected_status status)) w1))"

section \<open>Paginated Query Client: \<^verbatim>\<open>find_ids\<close>\<close>












section \<open>Identifier-list mode: \<^verbatim>\<open>main\<close>\<close>

text \<open>
  Lines 439 to 454, \<^verbatim>\<open>for i, conversation_id in enumerate(conversation_ids, 1)\<close>; the
  third argument is the length of the whole list, the fifth the number of recordings
  collected so far.
\<close>

fun process_conversations :: "nat \<Rightarrow> nat \<Rightarrow> json list \<Rightarrow> nat \<Rightarrow> world \<Rightarrow> nat \<times> world" where
  "process_conversations i n [] collected w = (collected, w)"
| "process_conversations i n (conversation_id # rest) collected w =
     (let w1 = emit (Log_info (Processing_conversation i n conversation_id)) w;
          (recordings, w2) = find_recordings_by_conversation_id conversation_id ''recording_ids.csv'' w1;
          w3 = (if i mod 50 = 0 then emit (Sleep (seconds 5)) (emit (Log_info Pausing) w2) else w2)
      in process_conversations (i + 1) n rest (collected + length recordings) w3)"

text \<open>
  \<^verbatim>\<open>main\<close> from line 427 on, given the identifiers that \<^verbatim>\<open>read_conversation_ids\<close> returned:
  the finder is constructed (which authenticates), the list is cut to 800, each identifier
  is processed.
\<close>

definition main :: "json list \<Rightarrow> world \<Rightarrow> world" where
  "main ids w =
     (case authenticate (w\<lparr>access_token := JNull, headers := None\<rparr>) of
        (Some e, w1) \<Rightarrow> emit (Log_error Critical_error) w1
      | (None, w1) \<Rightarrow>
          (let conversation_ids = take 800 ids;
               (collected, w2) = process_conversations 1 (length conversation_ids) conversation_ids 0 w1
           in emit (Log_info (Processed_total collected)) w2))"

section \<open>Vocabulary of the statements\<close>

text \<open>The last day that a \<^verbatim>\<open>datetime\<close> can hold.\<close>

definition last_date :: datetime where
  "last_date = \<lparr>year = 9999, month = 12, day = 31\<rparr>"

text \<open>Reading a decoded response: the member of an object, and the shapes of values.\<close>

fun member :: "json \<Rightarrow> string \<Rightarrow> json option" where
  "member (JObj kvs) k = map_of kvs k"
| "member _ k = None"

fun is_object :: "json \<Rightarrow> bool" where
  "is_object (JObj kvs) = True"
| "is_object _ = False"

fun is_array :: "json \<Rightarrow> bool" where
  "is_array (JArr xs) = True"
| "is_array _ = False"

definition absent_or_object :: "json option \<Rightarrow> bool" where
  "absent_or_object v = (case v of None \<Rightarrow> True | Some j \<Rightarrow> is_object j)"

definition or_else :: "json option \<Rightarrow> json \<Rightarrow> json" where
  "or_else v d = (case v of None \<Rightarrow> d | Some j \<Rightarrow> j)"

text \<open>A world for examples: the server gives these replies in turn and is then out of
  reach; no file exists; the finder holds a token.\<close>

definition initial_world :: "reply list \<Rightarrow> world" where
  "initial_world replies =
     \<lparr>network = (\<lambda>n. if n < length replies then replies ! n else Connection_failure),
      requests_made = 0, files = Map.empty, trace = [], access_token = JStr ''token'',
      headers = Some (JStr ''token'')\<rparr>"

text \<open>The value found by following member names from a value.\<close>

fun path :: "json \<Rightarrow> string list \<Rightarrow> json option" where
  "path j [] = Some j"
| "path j (k # ks) = (case member j k of None \<Rightarrow> None | Some v \<Rightarrow> path v ks)"

text \<open>A recording whose row can be built: it is an object, and \<^verbatim>\<open>mediaUris\<close>, its entry
  \<^verbatim>\<open>"0"\<close> and \<^verbatim>\<open>download\<close> are objects where they are present.\<close>

definition readable :: "json \<Rightarrow> bool" where
  "readable r =
     (is_object r \<and> absent_or_object (member r ''mediaUris'')
      \<and> absent_or_object (member (or_else (member r ''mediaUris'') (JObj [])) ''0'')
      \<and> absent_or_object (member r ''download''))"








text \<open>
  The progress of identifier-list mode as the trace shows it: the log entries
  "Processing conversation i/n" and the cooldowns of five seconds. \<open>schedule n ids\<close> is
  the progress expected of the identifiers \<open>ids\<close>: each is announced with its position
  counted from 1, and a cooldown follows the positions that are multiples of 50.
\<close>

fun is_processing :: "event \<Rightarrow> bool" where
  "is_processing (Log_info (Processing_conversation i n c)) = True"
| "is_processing _ = False"

definition cooldown :: event where
  "cooldown = Sleep (seconds 5)"

definition progress :: "event list \<Rightarrow> event list" where
  "progress es = filter (\<lambda>e. e = cooldown \<or> is_processing e) es"

definition cooldowns :: "event list \<Rightarrow> nat" where
  "cooldowns es = length (filter (\<lambda>e. e = cooldown) es)"

definition schedule :: "nat \<Rightarrow> json list \<Rightarrow> event list" where
  "schedule n ids =
     concat (map (\<lambda>j. Log_info (Processing_conversation (j + 1) n (ids ! j))
                        # (if (j + 1) mod 50 = 0 then [cooldown] else []))
                 [0..<length ids])"













section \<open>The query interval\<close>

lemma div_Suc_step: "0 < k \<Longrightarrow> Suc n div k = n div k + (if Suc n mod k = 0 then 1 else 0)"
  by (simp add: div_Suc)

lemma days_before_year_Suc:
  assumes "1 \<le> y"
  shows "days_before_year (Suc y) = days_before_year y + (if is_leap y then 366 else 365)"
proof -
  from assms obtain n where y: "y = Suc n" by (cases y) auto
  define a where "a = n div 4"
  define b where "b = n div 100"
  define c where "c = n div 400"
  have d4: "Suc n div 4 = a + (if Suc n mod 4 = 0 then 1 else 0)"
    unfolding a_def by (rule div_Suc_step) simp
  have d100: "Suc n div 100 = b + (if Suc n mod 100 = 0 then 1 else 0)"
    unfolding b_def by (rule div_Suc_step) simp
  have d400: "Suc n div 400 = c + (if Suc n mod 400 = 0 then 1 else 0)"
    unfolding c_def by (rule div_Suc_step) simp
  have le: "b \<le> a" unfolding a_def b_def by (rule div_le_mono2) simp_all
  have m1: "Suc n mod 4 = 0" if "Suc n mod 100 = 0"
  proof -
    from that have "100 dvd Suc n" by (simp add: mod_eq_0_iff_dvd)
    moreover have "(4::nat) dvd 100" by simp
    ultimately have "4 dvd Suc n" by (rule dvd_trans[rotated])
    then show ?thesis by (simp add: mod_eq_0_iff_dvd)
  qed
  have m2: "Suc n mod 100 = 0" if "Suc n mod 400 = 0"
  proof -
    from that have "400 dvd Suc n" by (simp add: mod_eq_0_iff_dvd)
    moreover have "(100::nat) dvd 400" by simp
    ultimately have "100 dvd Suc n" by (rule dvd_trans[rotated])
    then show ?thesis by (simp add: mod_eq_0_iff_dvd)
  qed
  have lhs: "days_before_year (Suc y) = Suc n * 365 + Suc n div 4 - Suc n div 100 + Suc n div 400"
    by (simp add: days_before_year_def y)
  have rhs: "days_before_year y = n * 365 + a - b + c"
    by (simp add: days_before_year_def y a_def b_def c_def)
  have leap: "is_leap y = (Suc n mod 4 = 0 \<and> (Suc n mod 100 \<noteq> 0 \<or> Suc n mod 400 = 0))"
    by (simp add: is_leap_def y)
  consider (none) "Suc n mod 4 \<noteq> 0" | (four) "Suc n mod 4 = 0" "Suc n mod 100 \<noteq> 0"
    | (hundred) "Suc n mod 100 = 0" "Suc n mod 400 \<noteq> 0" | (fourhundred) "Suc n mod 400 = 0"
    by blast
  then show ?thesis
  proof cases
    case none
    from none m1 have h: "Suc n mod 100 \<noteq> 0" by auto
    with m2 have "Suc n mod 400 \<noteq> 0" by auto
    with none h show ?thesis unfolding lhs rhs leap d4 d100 d400 using le by simp
  next
    case four
    with m2 have "Suc n mod 400 \<noteq> 0" by auto
    with four show ?thesis unfolding lhs rhs leap d4 d100 d400 using le by simp
  next
    case hundred
    with m1 have "Suc n mod 4 = 0" by auto
    with hundred show ?thesis unfolding lhs rhs leap d4 d100 d400 using le by simp
  next
    case fourhundred
    with m2 have h: "Suc n mod 100 = 0" by auto
    with m1 have "Suc n mod 4 = 0" by auto
    with fourhundred h show ?thesis unfolding lhs rhs leap d4 d100 d400 using le by simp
  qed
qed

lemma days_before_month_next:
  assumes "1 \<le> m" "m < 12"
  shows "days_before_month y (m + 1) = days_before_month y m + days_in_month y m"
proof -
  from assms have "m = 1 \<or> m = 2 \<or> m = 3 \<or> m = 4 \<or> m = 5 \<or> m = 6 \<or> m = 7 \<or> m = 8
      \<or> m = 9 \<or> m = 10 \<or> m = (11::nat)"
    by arith
  then show ?thesis
    by (elim disjE) (simp_all add: days_before_month_def days_in_month_def)
qed

lemma days_before_december:
  "days_before_month y 12 + days_in_month y 12 = (if is_leap y then 366 else 365)"
  by (simp add: days_before_month_def days_in_month_def)

lemma toordinal_add_one_day:
  assumes "valid_date d" "add_one_day d = Inr d'"
  shows "toordinal d' = toordinal d + 1"
proof -
  from assms(1) have v: "1 \<le> year d" "1 \<le> month d" "month d \<le> 12"
      "day d \<le> days_in_month (year d) (month d)"
    by (simp_all add: valid_date_def)
  show ?thesis
  proof (cases "day d < days_in_month (year d) (month d)")
    case True
    with assms(2) show ?thesis by (auto simp: add_one_day_def toordinal_def)
  next
    case last_day: False
    with v have e: "day d = days_in_month (year d) (month d)" by simp
    show ?thesis
    proof (cases "month d < 12")
      case True
      with last_day assms(2) have "d' = d\<lparr>month := month d + 1, day := 1\<rparr>"
        by (simp add: add_one_day_def)
      then show ?thesis
        using days_before_month_next[OF v(2) True, of "year d"] e by (simp add: toordinal_def)
    next
      case december: False
      with v have m12: "month d = 12" by simp
      from last_day december assms(2) have "d' = \<lparr>year = year d + 1, month = 1, day = 1\<rparr>"
        by (simp add: add_one_day_def split: if_splits)
      then show ?thesis
        using days_before_year_Suc[OF v(1)] days_before_december[of "year d"] e m12
        by (simp add: toordinal_def days_before_month_def)
    qed
  qed
qed

lemma strptime_valid: "strptime s = Inr d \<Longrightarrow> valid_date d"
  unfolding strptime_def Let_def
  by (simp split: option.splits prod.splits list.splits if_splits)

lemma add_one_day_defined:
  assumes "valid_date d" "d \<noteq> last_date"
  shows "\<exists>d'. add_one_day d = Inr d'"
proof (cases "year d < MAXYEAR \<or> month d < 12 \<or> day d < days_in_month (year d) (month d)")
  case True then show ?thesis by (auto simp: add_one_day_def)
next
  case False
  with assms(1) have "year d = 9999" "month d = 12" "day d = 31"
    by (auto simp: valid_date_def MAXYEAR_def days_in_month_def)
  then have "d = last_date" by (simp add: last_date_def)
  with assms(2) show ?thesis by simp
qed

text \<open>
  C1, as the code has it. For every pair of strings that \<^verbatim>\<open>strptime\<close> accepts as calendar
  dates, with an end date before 9999-12-31, the interval of the query body runs from the
  start date at \<^verbatim>\<open>T00:00:00Z\<close> to the day after the end date at \<^verbatim>\<open>T00:00:00Z\<close>; the day
  after is the date whose ordinal is one more than the end date's.
\<close>

theorem query_interval_next_day:
  assumes "strptime start_date = Inr start_dt" and "strptime end_date = Inr end_dt"
    and "end_dt \<noteq> last_date"
  shows "\<exists>upper. add_one_day end_dt = Inr upper
           \<and> toordinal upper = toordinal end_dt + 1
           \<and> query_interval start_date end_date
               = Inr (isoformat start_dt @ ''Z/'' @ isoformat upper @ ''Z'')"
proof -
  from assms(2) have v: "valid_date end_dt" by (rule strptime_valid)
  from add_one_day_defined[OF v assms(3)] obtain upper where u: "add_one_day end_dt = Inr upper" ..
  from toordinal_add_one_day[OF v u] have "toordinal upper = toordinal end_dt + 1" .
  moreover have "query_interval start_date end_date
               = Inr (isoformat start_dt @ ''Z/'' @ isoformat upper @ ''Z'')"
    using assms(1,2) u by (simp add: query_interval_def and_then_def)
  ultimately show ?thesis using u by blast
qed

theorem query_interval_next_day_witness:
  "strptime ''2024-01-01'' = Inr \<lparr>year = 2024, month = 1, day = 1\<rparr>
   \<and> \<lparr>year = 2024, month = 1, day = 1\<rparr> \<noteq> last_date
   \<and> query_interval ''2024-01-01'' ''2024-01-01'' = Inr ''2024-01-01T00:00:00Z/2024-01-02T00:00:00Z''"
proof -
  let ?d = "\<lparr>year = 2024, month = 1, day = 1\<rparr>"
  have p: "strptime ''2024-01-01'' = Inr ?d"
    by (simp add: strptime_def digit_val_def month_two_def day_two_def nonzero_digit_def
        valid_date_def days_in_month_def MAXYEAR_def)
  have n: "?d \<noteq> last_date" by (simp add: last_date_def)
  have a: "add_one_day ?d = Inr \<lparr>year = 2024, month = 1, day = 2\<rparr>"
    by (simp add: add_one_day_def days_in_month_def)
  from query_interval_next_day[OF p p n] obtain upper where
    u: "add_one_day ?d = Inr upper" and
    q: "query_interval ''2024-01-01'' ''2024-01-01'' = Inr (isoformat ?d @ ''Z/'' @ isoformat upper @ ''Z'')"
    by blast
  from u a have "upper = \<lparr>year = 2024, month = 1, day = 2\<rparr>" by simp
  with q have "query_interval ''2024-01-01'' ''2024-01-01'' = Inr ''2024-01-01T00:00:00Z/2024-01-02T00:00:00Z''"
    by (simp add: isoformat_def pad2_def pad4_def digit_char_def)
  with p n show ?thesis by blast
qed

text \<open>
  C1 as stated fails at the end date 9999-12-31, a valid calendar date: the addition of
  one day leaves the range of \<^verbatim>\<open>datetime\<close>, \<^verbatim>\<open>find_ids\<close> raises OverflowError at line 71 and
  no interval is formed.
\<close>

theorem query_interval_last_date_overflows:
  "strptime ''9999-12-31'' = Inr last_date
   \<and> query_interval ''2024-01-01'' ''9999-12-31'' = Inl OverflowError"
  by (simp add: query_interval_def and_then_def strptime_def digit_val_def month_two_def
      day_two_def nonzero_digit_def valid_date_def days_in_month_def is_leap_def MAXYEAR_def
      add_one_day_def last_date_def)

section \<open>Normalization of the detail response\<close>

text \<open>
  C2, as the code has it. The recordings of a decoded response are always a list: a bare
  array is used as it is; an object whose \<^verbatim>\<open>entities\<close> is an array yields that array; an
  object without \<^verbatim>\<open>entities\<close> is wrapped as a single-element list; an object whose
  \<^verbatim>\<open>entities\<close> is not an array yields the single-element list of that value; any other
  value is wrapped.
\<close>

theorem normalize_shapes:
  "normalize (JArr xs) = xs
   \<and> (member (JObj kvs) ''entities'' = Some (JArr xs) \<longrightarrow> normalize (JObj kvs) = xs)
   \<and> (member (JObj kvs) ''entities'' = None \<longrightarrow> normalize (JObj kvs) = [JObj kvs])
   \<and> (member (JObj kvs) ''entities'' = Some v \<and> \<not> is_array v \<longrightarrow> normalize (JObj kvs) = [v])
   \<and> (\<not> is_array j \<and> \<not> is_object j \<longrightarrow> normalize j = [j])"
proof (intro conjI impI)
  show "normalize (JArr xs) = xs" by (simp add: normalize_def)
  show "normalize (JObj kvs) = xs" if "member (JObj kvs) ''entities'' = Some (JArr xs)"
    using that by (simp add: normalize_def)
  show "normalize (JObj kvs) = [JObj kvs]" if "member (JObj kvs) ''entities'' = None"
    using that by (simp add: normalize_def)
  show "normalize (JObj kvs) = [v]" if "member (JObj kvs) ''entities'' = Some v \<and> \<not> is_array v"
    using that by (cases v) (simp_all add: normalize_def)
  show "normalize j = [j]" if "\<not> is_array j \<and> \<not> is_object j"
    using that by (cases j) (simp_all add: normalize_def)
qed

theorem normalize_shapes_witness:
  "normalize (JObj [(''entities'', JArr [JStr ''r1'', JStr ''r2''])]) = [JStr ''r1'', JStr ''r2'']
   \<and> normalize (JArr [JStr ''r1'', JStr ''r2'']) = [JStr ''r1'', JStr ''r2'']
   \<and> normalize (JObj [(''id'', JStr ''r1'')]) = [JObj [(''id'', JStr ''r1'')]]
   \<and> normalize (JObj [(''entities'', JNull)]) = [JNull]
   \<and> normalize (JStr ''r1'') = [JStr ''r1'']"
  using normalize_shapes[of "[JStr ''r1'', JStr ''r2'']" "[(''entities'', JArr [JStr ''r1'', JStr ''r2''])]" JNull JNull]
    normalize_shapes[of "[]" "[(''id'', JStr ''r1'')]" JNull JNull]
    normalize_shapes[of "[]" "[(''entities'', JNull)]" JNull JNull]
    normalize_shapes[of "[]" "[]" JNull "JStr ''r1''"]
  by simp

text \<open>
  C2 as stated fails for an object whose \<^verbatim>\<open>entities\<close> member is not an array: line 209
  takes the member, and line 213 wraps the member, not the object.
\<close>

theorem normalize_entities_not_wrapped:
  "normalize (JObj [(''entities'', JStr ''x'')]) = [JStr ''x'']
   \<and> normalize (JObj [(''entities'', JStr ''x'')]) \<noteq> [JObj [(''entities'', JStr ''x'')]]"
  by (simp add: normalize_def)

section \<open>The row of a recording\<close>

lemma dict_get_member: "is_object r \<Longrightarrow> dict_get r k d = Inr (or_else (member r k) d)"
  by (cases r) (simp_all add: or_else_def)

lemma download_uri_value:
  assumes "is_object r" and "absent_or_object (member r ''mediaUris'')"
    and "absent_or_object (member (or_else (member r ''mediaUris'') (JObj [])) ''0'')"
    and "absent_or_object (member r ''download'')"
  shows "download_uri r = Inr (or_else (path r [''mediaUris'', ''0'', ''mediaUri''])
                                 (or_else (path r [''download'', ''url'']) sentinel))"
proof -
  obtain kvs where r: "r = JObj kvs" using assms(1) by (cases r) auto
  define uris where "uris = or_else (member r ''mediaUris'') (JObj [])"
  define first where "first = or_else (member uris ''0'') (JObj [])"
  define download where "download = or_else (member r ''download'') (JObj [])"
  have ou: "is_object uris" using assms(2)
    by (auto simp: uris_def or_else_def absent_or_object_def split: option.splits)
  have "is_object first" using assms(3)
    by (auto simp: first_def uris_def or_else_def absent_or_object_def split: option.splits)
  have od: "is_object download" using assms(4)
    by (auto simp: download_def or_else_def absent_or_object_def split: option.splits)
  have step: "download_uri r = Inr (or_else (member first ''mediaUri'')
                (or_else (member download ''url'') sentinel))"
    unfolding download_uri_def
    using dict_get_member[OF assms(1)] dict_get_member[OF ou] dict_get_member[OF od]
      dict_get_member[OF \<open>is_object first\<close>]
    by (simp add: and_then_def uris_def first_def download_def)
  have p1: "path r [''mediaUris'', ''0'', ''mediaUri''] = member first ''mediaUri''"
    by (auto simp: first_def uris_def or_else_def split: option.splits)
  have p2: "path r [''download'', ''url''] = member download ''url''"
    by (auto simp: download_def or_else_def split: option.splits)
  show ?thesis unfolding step p1 p2 ..
qed

lemma dict_get_not_object: "\<not> is_object r \<Longrightarrow> dict_get r k d = Inl AttributeError"
  by (cases r) simp_all

lemma not_absent_or_object:
  "\<not> absent_or_object (member r k) \<Longrightarrow> \<not> is_object (or_else (member r k) d)"
  by (auto simp: absent_or_object_def or_else_def split: option.splits)

lemma absent_or_object_or_else:
  "absent_or_object (member r k) \<Longrightarrow> is_object (or_else (member r k) (JObj []))"
  by (auto simp: absent_or_object_def or_else_def split: option.splits)

lemma download_uri_raises:
  assumes "is_object r" and "\<not> readable r"
  shows "download_uri r = Inl AttributeError"
proof -
  define uris where "uris = or_else (member r ''mediaUris'') (JObj [])"
  define first where "first = or_else (member uris ''0'') (JObj [])"
  define download where "download = or_else (member r ''download'') (JObj [])"
  have start: "download_uri r =
      and_then (dict_get uris ''0'' (JObj [])) (\<lambda>first.
      and_then (dict_get r ''download'' (JObj [])) (\<lambda>download.
      and_then (dict_get download ''url'' sentinel) (\<lambda>fallback.
      dict_get first ''mediaUri'' fallback)))"
    unfolding download_uri_def using dict_get_member[OF assms(1)]
    by (simp add: and_then_def uris_def)
  show ?thesis
  proof (cases "absent_or_object (member r ''mediaUris'')")
    case False
    then have "\<not> is_object uris" unfolding uris_def by (rule not_absent_or_object)
    then show ?thesis unfolding start by (simp add: dict_get_not_object and_then_def)
  next
    case u: True
    then have ou: "is_object uris" unfolding uris_def by (rule absent_or_object_or_else)
    show ?thesis
    proof (cases "absent_or_object (member uris ''0'')")
      case False
      then have nf: "\<not> is_object first" unfolding first_def by (rule not_absent_or_object)
      show ?thesis
      proof (cases "is_object download")
        case True
        then show ?thesis unfolding start
          using dict_get_member[OF ou] dict_get_member[OF assms(1)] dict_get_member[OF True] nf
          by (simp add: and_then_def first_def[symmetric] download_def[symmetric] dict_get_not_object)
      next
        case False
        then show ?thesis unfolding start
          using dict_get_member[OF ou] dict_get_member[OF assms(1)]
          by (simp add: and_then_def download_def[symmetric] dict_get_not_object)
      qed
    next
      case True
      with u assms have "\<not> absent_or_object (member r ''download'')"
        by (simp add: readable_def uris_def)
      then have "\<not> is_object download" unfolding download_def by (rule not_absent_or_object)
      then show ?thesis unfolding start
        using dict_get_member[OF ou] dict_get_member[OF assms(1)]
        by (simp add: and_then_def download_def[symmetric] dict_get_not_object)
    qed
  qed
qed

lemma recording_row_readable:
  assumes ok: "readable r"
  shows "recording_row conversation_id r =
        Inr (map Val
          [conversation_id,
           or_else (member r ''id'') sentinel,
           or_else (member r ''startTime'') sentinel,
           or_else (member r ''endTime'') sentinel,
           or_else (member r ''media'') (or_else (member r ''mediaType'') sentinel),
           or_else (member r ''fileState'') sentinel,
           or_else (path r [''mediaUris'', ''0'', ''mediaUri''])
             (or_else (path r [''download'', ''url'']) sentinel)])"
proof -
  from ok have o: "is_object r" by (simp add: readable_def)
  from ok have "download_uri r = Inr (or_else (path r [''mediaUris'', ''0'', ''mediaUri''])
                                 (or_else (path r [''download'', ''url'']) sentinel))"
    by (intro download_uri_value) (simp_all add: readable_def)
  then show ?thesis
    unfolding recording_row_def using dict_get_member[OF o] by (simp add: and_then_def)
qed

lemma recording_row_unreadable:
  assumes bad: "\<not> readable r"
  shows "recording_row conversation_id r = Inl AttributeError"
proof (cases "is_object r")
  case False
  then show ?thesis unfolding recording_row_def by (simp add: dict_get_not_object and_then_def)
next
  case True
  from download_uri_raises[OF True bad] show ?thesis
    unfolding recording_row_def using dict_get_member[OF True] by (simp add: and_then_def)
qed

text \<open>
  C6. In identifier-detail mode the row of a recording holds, after the conversation
  identifier, the recording identifier (member \<^verbatim>\<open>id\<close>), the start time, the end time, the
  media type (member \<^verbatim>\<open>media\<close>, else member \<^verbatim>\<open>mediaType\<close>) and the file state, each replaced
  by \<^verbatim>\<open>'N/A'\<close> exactly when the payload has no such member and passed through unchanged
  otherwise; the download address is \<^verbatim>\<open>mediaUris["0"]["mediaUri"]\<close> if present, otherwise
  \<^verbatim>\<open>download["url"]\<close>, otherwise \<^verbatim>\<open>'N/A'\<close>. A recording that is not readable has no row: the
  row raises AttributeError.
\<close>

theorem recording_row_fields:
  "(readable r \<longrightarrow>
      recording_row conversation_id r =
        Inr (map Val
          [conversation_id,
           or_else (member r ''id'') sentinel,
           or_else (member r ''startTime'') sentinel,
           or_else (member r ''endTime'') sentinel,
           or_else (member r ''media'') (or_else (member r ''mediaType'') sentinel),
           or_else (member r ''fileState'') sentinel,
           or_else (path r [''mediaUris'', ''0'', ''mediaUri''])
             (or_else (path r [''download'', ''url'']) sentinel)]))
   \<and> (\<not> readable r \<longrightarrow> recording_row conversation_id r = Inl AttributeError)"
  using recording_row_readable[of r conversation_id] recording_row_unreadable[of r conversation_id]
  by blast

theorem recording_row_fields_witness:
  "readable (JObj [(''id'', JStr ''r1''), (''startTime'', JStr ''t0''), (''mediaType'', JStr ''audio''),
            (''download'', JObj [(''url'', JStr ''u'')])])
   \<and> recording_row (JStr ''c1'')
     (JObj [(''id'', JStr ''r1''), (''startTime'', JStr ''t0''), (''mediaType'', JStr ''audio''),
            (''download'', JObj [(''url'', JStr ''u'')])])
   = Inr (map Val [JStr ''c1'', JStr ''r1'', JStr ''t0'', JStr ''N/A'', JStr ''audio'', JStr ''N/A'', JStr ''u''])
   \<and> \<not> readable (JObj [(''download'', JNull)])
   \<and> recording_row (JStr ''c1'') (JObj [(''download'', JNull)]) = Inl AttributeError"
  using recording_row_fields[of "JObj [(''id'', JStr ''r1''), (''startTime'', JStr ''t0''), (''mediaType'', JStr ''audio''),
            (''download'', JObj [(''url'', JStr ''u'')])]" "JStr ''c1''"]
    recording_row_fields[of "JObj [(''download'', JNull)]" "JStr ''c1''"]
  by (simp add: readable_def absent_or_object_def or_else_def sentinel_def)

section \<open>Conversation detail lookup\<close>

text \<open>
  C8. A conversation-detail lookup that receives status 403 returns \<^verbatim>\<open>None\<close>, prints the
  warning, and makes exactly one request: no retry and no exception.
\<close>

theorem get_conversation_details_403:
  assumes "network w (requests_made w) = Response 403 body"
  shows "get_conversation_details conversation_id w =
     (JNull, w\<lparr>requests_made := requests_made w + 1,
               trace := trace w @ [Request (Conversation_url conversation_id),
                                   Print (Not_authorized 403)]\<rparr>)"
  using assms by (simp add: get_conversation_details_def http_request_def emit_def)

theorem get_conversation_details_403_witness:
  "network (initial_world [Response 403 None]) (requests_made (initial_world [Response 403 None]))
     = Response 403 None
   \<and> fst (get_conversation_details (JStr ''c1'') (initial_world [Response 403 None])) = JNull
   \<and> trace (snd (get_conversation_details (JStr ''c1'') (initial_world [Response 403 None])))
       = [Request (Conversation_url (JStr ''c1'')), Print (Not_authorized 403)]
   \<and> requests_made (snd (get_conversation_details (JStr ''c1'') (initial_world [Response 403 None]))) = 1"
proof -
  have h: "network (initial_world [Response 403 None]) (requests_made (initial_world [Response 403 None]))
     = Response 403 None"
    by (simp add: initial_world_def)
  from get_conversation_details_403[OF h, of "JStr ''c1''"] h show ?thesis
    by (simp add: initial_world_def)
qed

section \<open>The two definitions of the detail fetch\<close>

lemma attempt_list: "[0..<max_retries] = [0, 1, 2]"
  by (simp add: max_retries_def upt_rec)

lemma class_namespace_last:
  "class_namespace [(name, first), (name, second)] name = Some second"
  by (simp add: class_namespace_def)

lemma first_on_bare_array:
  "fst (find_recordings_first to_csv (JStr ''c1'') ''out.csv''
          (initial_world [Response 200 (Some (JArr [JObj []]))])) = JArr []
   \<and> files (snd (find_recordings_first to_csv (JStr ''c1'') ''out.csv''
          (initial_world [Response 200 (Some (JArr [JObj []]))]))) ''out.csv'' = None"
  by (simp add: find_recordings_first_def attempt_list initial_world_def http_request_def
      checked_json_def emit_def)

lemma second_on_bare_array:
  "fst (find_recordings_second (JStr ''c1'') ''out.csv''
          (initial_world [Response 200 (Some (JArr [JObj []]))])) = JArr [JObj []]
   \<and> files (snd (find_recordings_second (JStr ''c1'') ''out.csv''
          (initial_world [Response 200 (Some (JArr [JObj []]))]))) ''out.csv''
       = Some [detail_header,
               Csv_row (map Val [JStr ''c1'', sentinel, sentinel, sentinel, sentinel, sentinel,
                                 sentinel])]"
  by (simp add: find_recordings_second_def find_recordings_by_conversation_id_def attempt_list
      initial_world_def http_request_def checked_json_def emit_def normalize_def append_records_def
      recording_row_def download_uri_def and_then_def Let_def)

text \<open>
  C10. The class body binds \<^verbatim>\<open>find_recordings_by_conversation_id\<close> twice, and the name
  denotes the second definition: every call runs it, whatever the identifier. The two are
  not equivalent: on a response that is a bare array of one recording the first definition
  returns the empty list and writes nothing, the second returns the recording and appends
  the seven-column header and one row.
\<close>

theorem second_definition_replaces_first:
  "class_namespace (class_body to_csv) ''find_recordings_by_conversation_id''
     = Some find_recordings_second
   \<and> fst (find_recordings_first to_csv (JStr ''c1'') ''out.csv''
          (initial_world [Response 200 (Some (JArr [JObj []]))])) = JArr []
   \<and> files (snd (find_recordings_first to_csv (JStr ''c1'') ''out.csv''
          (initial_world [Response 200 (Some (JArr [JObj []]))]))) ''out.csv'' = None
   \<and> fst (find_recordings_second (JStr ''c1'') ''out.csv''
          (initial_world [Response 200 (Some (JArr [JObj []]))])) = JArr [JObj []]
   \<and> files (snd (find_recordings_second (JStr ''c1'') ''out.csv''
          (initial_world [Response 200 (Some (JArr [JObj []]))]))) ''out.csv''
       = Some [detail_header,
               Csv_row (map Val [JStr ''c1'', sentinel, sentinel, sentinel, sentinel, sentinel,
                                 sentinel])]
   \<and> find_recordings_first to_csv (JStr ''c1'') ''out.csv''
         (initial_world [Response 200 (Some (JArr [JObj []]))])
       \<noteq> find_recordings_second (JStr ''c1'') ''out.csv''
           (initial_world [Response 200 (Some (JArr [JObj []]))])"
proof -
  have bound: "class_namespace (class_body to_csv) ''find_recordings_by_conversation_id''
     = Some find_recordings_second"
    unfolding class_body_def by (rule class_namespace_last)
  have differ: "find_recordings_first to_csv (JStr ''c1'') ''out.csv''
         (initial_world [Response 200 (Some (JArr [JObj []]))])
       \<noteq> find_recordings_second (JStr ''c1'') ''out.csv''
           (initial_world [Response 200 (Some (JArr [JObj []]))])"
  proof
    assume "find_recordings_first to_csv (JStr ''c1'') ''out.csv''
         (initial_world [Response 200 (Some (JArr [JObj []]))])
       = find_recordings_second (JStr ''c1'') ''out.csv''
           (initial_world [Response 200 (Some (JArr [JObj []]))])"
    then have "JArr [] = JArr [JObj []]"
      using first_on_bare_array[of to_csv] second_on_bare_array by simp
    then show False by simp
  qed
  from bound differ first_on_bare_array[of to_csv] second_on_bare_array show ?thesis
    by blast
qed

section \<open>The export file\<close>

lemma emit_fields [simp]:
  "files (emit e w) = files w" "trace (emit e w) = trace w @ [e]"
  "network (emit e w) = network w" "requests_made (emit e w) = requests_made w"
  "access_token (emit e w) = access_token w" "headers (emit e w) = headers w"
  by (simp_all add: emit_def)

lemma http_request_fields [simp]:
  "fst (http_request ep w) = network w (requests_made w)"
  "files (snd (http_request ep w)) = files w"
  "trace (snd (http_request ep w)) = trace w @ [Request ep]"
  "network (snd (http_request ep w)) = network w"
  "requests_made (snd (http_request ep w)) = requests_made w + 1"
  "access_token (snd (http_request ep w)) = access_token w"
  "headers (snd (http_request ep w)) = headers w"
  by (simp_all add: http_request_def)






lemma append_records_other_files:
  "other \<noteq> output_file \<Longrightarrow> files (snd (append_records cid rs output_file w)) other = files w other"
  by (auto simp: append_records_def Let_def split: prod.splits option.splits)





section \<open>Append-only writes\<close>















section \<open>Identifier-list mode\<close>

lemma power_two_not_five: "(2::nat) ^ a \<noteq> 5"
proof (cases "a < 3")
  case True
  then have "a = 0 \<or> a = 1 \<or> a = 2" by arith
  then show ?thesis by auto
next
  case False
  then have "(2::nat) ^ 3 \<le> 2 ^ a" by (intro power_increasing) simp_all
  then show ?thesis by simp
qed

lemma backoff_not_cooldown: "seconds (2 ^ a) \<noteq> seconds 5"
  using power_two_not_five[of a] by (simp add: seconds_def)

lemma progress_append: "progress (xs @ ys) = progress xs @ progress ys"
  by (simp add: progress_def)

lemma progress_emit:
  "progress (trace (emit e w)) = progress (trace w) @ (if e = cooldown \<or> is_processing e then [e] else [])"
  by (simp add: progress_def)

lemma progress_http_request:
  "progress (trace (snd (http_request ep w))) = progress (trace w)"
  by (simp add: progress_def cooldown_def)

lemma progress_authenticate_attempts:
  "progress (trace (snd (authenticate_attempts attempts w))) = progress (trace w)"
proof (induction attempts arbitrary: w)
  case Nil
  show ?case by simp
next
  case (Cons attempt attempts)
  define w1 where "w1 = snd (http_request Token_url w)"
  have p1: "progress (trace w1) = progress (trace w)"
    unfolding w1_def by (rule progress_http_request)
  show ?case
  proof (cases "and_then (checked_json (network w (requests_made w)))
                  (\<lambda>token_data. subscript token_data ''access_token'')")
    case (Inr token)
    then have "trace (snd (authenticate_attempts (attempt # attempts) w))
        = trace w1 @ [Log_info Authenticated]"
      by (simp add: split_beta w1_def)
    with p1 show ?thesis by (simp add: progress_append) (simp add: progress_def cooldown_def)
  next
    case (Inl e)
    show ?thesis
    proof (cases "e = RequestException \<and> attempt < max_retries - 1")
      case False
      with Inl have "trace (snd (authenticate_attempts (attempt # attempts) w)) = trace w1
          \<or> trace (snd (authenticate_attempts (attempt # attempts) w))
              = trace w1 @ [Log_warning (Authentication_attempt_failed (attempt + 1))]"
        by (auto simp: split_beta w1_def Let_def)
      with p1 show ?thesis by (auto simp: progress_append) (simp add: progress_def cooldown_def)
    next
      case True
      define w3 where "w3 = emit (Sleep (seconds (2 ^ attempt)))
          (emit (Log_warning (Authentication_attempt_failed (attempt + 1))) w1)"
      from True Inl have "authenticate_attempts (attempt # attempts) w = authenticate_attempts attempts w3"
        by (simp add: split_beta w1_def w3_def Let_def)
      moreover have "progress (trace w3) = progress (trace w)"
        using p1 backoff_not_cooldown[of attempt]
        by (simp add: w3_def progress_append) (simp add: progress_def cooldown_def)
      ultimately show ?thesis using Cons[of w3] by simp
    qed
  qed
qed

lemma progress_print: "progress (es @ [Print m]) = progress es"
  by (simp add: progress_def cooldown_def)

lemma progress_log_error: "progress (es @ [Log_error m]) = progress es"
  by (simp add: progress_def cooldown_def)

lemma progress_log_warning: "progress (es @ [Log_warning m]) = progress es"
  by (simp add: progress_def cooldown_def)

lemma progress_authenticate: "progress (trace (snd (authenticate w))) = progress (trace w)"
proof (cases "authenticate_attempts [0..<max_retries] w")
  case (Pair r w')
  with progress_authenticate_attempts[of "[0..<max_retries]" w]
  have p: "progress (trace w') = progress (trace w)" by simp
  from Pair show ?thesis
    by (cases r) (simp_all add: authenticate_def p progress_log_error)
qed

lemma append_records_trace:
  "trace (snd (append_records cid rs output_file w)) = trace w
   \<or> trace (snd (append_records cid rs output_file w))
       = trace w @ [Print (Added_recordings (length rs) cid output_file)]"
  by (auto simp: append_records_def Let_def split: prod.splits option.splits)

lemma progress_append_records:
  "progress (trace (snd (append_records cid rs output_file w))) = progress (trace w)"
  using append_records_trace[of cid rs output_file w] by (auto simp: progress_print)

lemma progress_find_recordings_attempts:
  "progress (trace (snd (find_recordings_attempts attempts cid output_file w))) = progress (trace w)"
proof (induction attempts arbitrary: w)
  case Nil
  show ?case by simp
next
  case (Cons attempt attempts)
  define w1 where "w1 = snd (http_request (Conversation_recordings_url cid) w)"
  have p1: "progress (trace w1) = progress (trace w)"
    unfolding w1_def by (rule progress_http_request)
  show ?case
  proof (cases "checked_json (network w (requests_made w))")
    case (Inr response_json)
    have "find_recordings_attempts (attempt # attempts) cid output_file w =
        (case append_records cid (normalize response_json) output_file w1 of
           (Some e, w2) \<Rightarrow> (Inl e, w2) | (None, w2) \<Rightarrow> (Inr (normalize response_json), w2))"
      using Inr by (simp add: split_beta Let_def w1_def)
    then have "snd (find_recordings_attempts (attempt # attempts) cid output_file w)
        = snd (append_records cid (normalize response_json) output_file w1)"
      by (simp split: prod.splits option.splits)
    with p1 show ?thesis by (simp add: progress_append_records)
  next
    case (Inl e)
    define w2 where "w2 = emit (Log_warning (Attempt_failed (attempt + 1) cid)) w1"
    have p2: "progress (trace w2) = progress (trace w)"
      unfolding w2_def using p1 by (simp add: progress_log_warning)
    show ?thesis
    proof (cases "attempt < max_retries - 1")
      case False
      with Inl have "snd (find_recordings_attempts (attempt # attempts) cid output_file w)
          = emit (Log_error (Failed_after_attempts max_retries)) w2"
        by (simp add: split_beta Let_def w1_def w2_def)
      with p2 show ?thesis by (simp add: progress_log_error)
    next
      case True
      obtain r w3 where au: "authenticate w2 = (r, w3)" by (cases "authenticate w2")
      with progress_authenticate[of w2] p2 have p3: "progress (trace w3) = progress (trace w)" by simp
      show ?thesis
      proof (cases r)
        case (Some e')
        with Inl True au have "snd (find_recordings_attempts (attempt # attempts) cid output_file w) = w3"
          by (simp add: split_beta Let_def w1_def w2_def)
        with p3 show ?thesis by simp
      next
        case None
        define w4 where "w4 = emit (Sleep (seconds (2 ^ attempt))) w3"
        from None Inl True au have "find_recordings_attempts (attempt # attempts) cid output_file w
            = find_recordings_attempts attempts cid output_file w4"
          by (simp add: split_beta Let_def w1_def w2_def w4_def)
        moreover have "progress (trace w4) = progress (trace w)"
          using p3 backoff_not_cooldown[of attempt]
          by (simp add: w4_def progress_append) (simp add: progress_def cooldown_def)
        ultimately show ?thesis using Cons[of w4] by simp
      qed
    qed
  qed
qed

lemma progress_find_recordings:
  "progress (trace (snd (find_recordings_by_conversation_id cid output_file w))) = progress (trace w)"
proof -
  obtain r w1 where first: "(if \<not> truthy (access_token w) then authenticate w else (None, w)) = (r, w1)"
    by (cases "if \<not> truthy (access_token w) then authenticate w else (None, w)")
  then have p1: "progress (trace w1) = progress (trace w)"
    using progress_authenticate[of w] by (auto split: if_splits)
  show ?thesis
  proof (cases r)
    case (Some e)
    with first have "snd (find_recordings_by_conversation_id cid output_file w)
        = emit (Log_error (Error_retrieving cid)) w1"
      by (simp add: find_recordings_by_conversation_id_def)
    with p1 show ?thesis by (simp add: progress_log_error)
  next
    case None
    obtain res w2 where loop: "find_recordings_attempts [0..<max_retries] cid output_file w1 = (res, w2)"
      by (cases "find_recordings_attempts [0..<max_retries] cid output_file w1")
    with progress_find_recordings_attempts[of "[0..<max_retries]" cid output_file w1] p1
    have p2: "progress (trace w2) = progress (trace w)" by simp
    from None first loop show ?thesis
      by (cases res) (simp_all add: find_recordings_by_conversation_id_def p2 progress_log_error)
  qed
qed


lemma progress_snoc:
  "progress (es @ [e]) = progress es @ (if e = cooldown \<or> is_processing e then [e] else [])"
  by (simp add: progress_def)

lemma progress_process_conversations:
  "progress (trace (snd (process_conversations i n cs collected w))) =
     progress (trace w) @
     concat (map (\<lambda>j. Log_info (Processing_conversation (i + j) n (cs ! j))
                        # (if (i + j) mod 50 = 0 then [cooldown] else []))
                 [0..<length cs])"
proof (induction cs arbitrary: i collected w)
  case Nil
  show ?case by simp
next
  case (Cons c cs)
  define w1 where "w1 = emit (Log_info (Processing_conversation i n c)) w"
  obtain recordings w2 where f: "find_recordings_by_conversation_id c ''recording_ids.csv'' w1 = (recordings, w2)"
    by (cases "find_recordings_by_conversation_id c ''recording_ids.csv'' w1")
  define w3 where "w3 = (if i mod 50 = 0 then emit (Sleep (seconds 5)) (emit (Log_info Pausing) w2) else w2)"
  have p1: "progress (trace w1) = progress (trace w) @ [Log_info (Processing_conversation i n c)]"
    by (simp add: w1_def progress_snoc)
  from progress_find_recordings[of c "''recording_ids.csv''" w1] f
  have p2: "progress (trace w2) = progress (trace w1)" by simp
  have p3: "progress (trace w3) = progress (trace w2) @ (if i mod 50 = 0 then [cooldown] else [])"
    by (simp add: w3_def progress_append) (simp add: progress_def cooldown_def)
  have step: "process_conversations i n (c # cs) collected w
      = process_conversations (i + 1) n cs (collected + length recordings) w3"
    using f by (simp add: Let_def w1_def w3_def)
  show ?case
    unfolding step Cons p3 p2 p1 by (simp add: map_upt_Suc del: upt_Suc)
qed

lemma cooldowns_append: "cooldowns (xs @ ys) = cooldowns xs + cooldowns ys"
  by (simp add: cooldowns_def)

lemma cooldowns_progress: "cooldowns (progress es) = cooldowns es"
proof -
  have "filter (\<lambda>e. e = cooldown) (filter (\<lambda>e. e = cooldown \<or> is_processing e) es)
      = filter (\<lambda>e. e = cooldown) es"
    by (induction es) auto
  then show ?thesis by (simp add: cooldowns_def progress_def)
qed

lemma cooldowns_from:
  assumes "1 \<le> i"
  shows "cooldowns (concat (map (\<lambda>j. Log_info (Processing_conversation (i + j) n (cs ! j))
                        # (if (i + j) mod 50 = 0 then [cooldown] else []))
                 [0..<k])) + (i - 1) div 50 = (i + k - 1) div 50"
proof (induction k)
  case 0
  show ?case by (simp add: cooldowns_def)
next
  case (Suc k)
  from assms obtain m where m: "i + k = Suc m" by (cases "i + k") auto
  have "Suc m div 50 = m div 50 + (if Suc m mod 50 = 0 then 1 else 0)"
    by (rule div_Suc_step) simp
  with m have d: "(i + k) div 50 = (i + k - 1) div 50 + (if (i + k) mod 50 = 0 then 1 else 0)"
    by simp
  have one: "cooldowns (Log_info (Processing_conversation (i + k) n (cs ! k))
                        # (if (i + k) mod 50 = 0 then [cooldown] else []))
             = (if (i + k) mod 50 = 0 then 1 else 0)"
    by (simp add: cooldowns_def cooldown_def)
  have "cooldowns (concat (map (\<lambda>j. Log_info (Processing_conversation (i + j) n (cs ! j))
                        # (if (i + j) mod 50 = 0 then [cooldown] else []))
                 [0..<Suc k])) + (i - 1) div 50
        = (i + k - 1) div 50 + (if (i + k) mod 50 = 0 then 1 else 0)"
    using Suc one by (simp add: cooldowns_append)
  with d show ?case by simp
qed

lemma schedule_120:
  "schedule 120 (replicate 120 (JStr ''c'')) ! 50 = cooldown"
  "schedule 120 (replicate 120 (JStr ''c'')) ! 101 = cooldown"
  "length (schedule 120 (replicate 120 (JStr ''c''))) = 122"
  by code_simp+

text \<open>
  C9. In identifier-list mode, once the finder is constructed, the identifiers (cut to the
  first 800) are announced in order and a cooldown of five seconds follows exactly the
  50th, 100th, ... identifier, whatever the replies of the server; the number of cooldowns
  is the number of identifiers divided by 50, rounded down. For 120 identifiers there are
  two, after the 50th and the 100th.
\<close>

theorem cooldown_after_every_fiftieth:
  assumes "fst (authenticate (w\<lparr>access_token := JNull, headers := None\<rparr>)) = None"
  shows "progress (trace (main ids w)) = progress (trace w) @ schedule (min (length ids) 800) (take 800 ids)
         \<and> cooldowns (trace (main ids w)) = cooldowns (trace w) + min (length ids) 800 div 50"
proof -
  obtain w1 where au: "authenticate (w\<lparr>access_token := JNull, headers := None\<rparr>) = (None, w1)"
    using assms by (cases "authenticate (w\<lparr>access_token := JNull, headers := None\<rparr>)") auto
  from progress_authenticate[of "w\<lparr>access_token := JNull, headers := None\<rparr>"] au
  have p1: "progress (trace w1) = progress (trace w)" by simp
  obtain collected w2 where loop:
    "process_conversations 1 (length (take 800 ids)) (take 800 ids) 0 w1 = (collected, w2)"
    by (cases "process_conversations 1 (length (take 800 ids)) (take 800 ids) 0 w1")
  from progress_process_conversations[of 1 "length (take 800 ids)" "take 800 ids" 0 w1] loop p1
  have p2: "progress (trace w2) = progress (trace w) @ schedule (min (length ids) 800) (take 800 ids)"
    by (simp add: schedule_def add.commute)
  from au loop have m: "main ids w = emit (Log_info (Processed_total collected)) w2"
    by (simp add: main_def Let_def)
  have first: "progress (trace (main ids w)) = progress (trace w) @ schedule (min (length ids) 800) (take 800 ids)"
    unfolding m using p2 by (simp add: progress_snoc cooldown_def)
  have "cooldowns (schedule (min (length ids) 800) (take 800 ids)) = min (length ids) 800 div 50"
    using cooldowns_from[of 1 "min (length ids) 800" "take 800 ids" "min (length ids) 800"]
    by (simp add: schedule_def add.commute)
  with first have "cooldowns (progress (trace (main ids w)))
      = cooldowns (progress (trace w)) + min (length ids) 800 div 50"
    by (simp add: cooldowns_append)
  then have "cooldowns (trace (main ids w)) = cooldowns (trace w) + min (length ids) 800 div 50"
    by (simp add: cooldowns_progress)
  with first show ?thesis by simp
qed

theorem cooldown_after_every_fiftieth_witness:
  "fst (authenticate
         ((initial_world [Response 200 (Some (JObj [(''access_token'', JStr ''t'')]))])
            \<lparr>access_token := JNull, headers := None\<rparr>)) = None
   \<and> cooldowns (trace (main (replicate 120 (JStr ''c''))
         (initial_world [Response 200 (Some (JObj [(''access_token'', JStr ''t'')]))]))) = 2
   \<and> length (progress (trace (main (replicate 120 (JStr ''c''))
         (initial_world [Response 200 (Some (JObj [(''access_token'', JStr ''t'')]))])))) = 122
   \<and> progress (trace (main (replicate 120 (JStr ''c''))
         (initial_world [Response 200 (Some (JObj [(''access_token'', JStr ''t'')]))]))) ! 50 = cooldown
   \<and> progress (trace (main (replicate 120 (JStr ''c''))
         (initial_world [Response 200 (Some (JObj [(''access_token'', JStr ''t'')]))]))) ! 101 = cooldown"
proof -
  let ?w = "initial_world [Response 200 (Some (JObj [(''access_token'', JStr ''t'')]))]"
  have h: "fst (authenticate (?w\<lparr>access_token := JNull, headers := None\<rparr>)) = None"
    by (simp add: authenticate_def attempt_list initial_world_def http_request_def
        checked_json_def and_then_def emit_def)
  have t: "trace ?w = []" by (simp add: initial_world_def)
  from cooldown_after_every_fiftieth[OF h, of "replicate 120 (JStr ''c'')"] t
  have "progress (trace (main (replicate 120 (JStr ''c'')) ?w)) = schedule 120 (replicate 120 (JStr ''c''))"
    and "cooldowns (trace (main (replicate 120 (JStr ''c'')) ?w)) = 2"
    by (simp_all add: progress_def cooldowns_def)
  with h schedule_120 show ?thesis by simp
qed

section \<open>Retry and back-off\<close>



















section \<open>The page loop\<close>







end
